theory Spec2Isabelle
  imports Main
begin

section \<open>Errors, contexts and runners (pkg/async/async.go)\<close>

text \<open>
  Go's \<open>error\<close> values that occur in the package: the two sentinels of package
  \<open>context\<close>, a plain message (\<open>errors.New\<close>, \<open>fmt.Errorf\<close> without \<open>%w\<close>) and an
  error wrapping another one. \<open>nil\<close> is \<open>None\<close> of \<open>error option\<close>.
\<close>

datatype error = Canceled | DeadlineExceeded | ErrorString string | Wrapped string error

definition errors_New :: "string \<Rightarrow> error" where
  "errors_New msg = ErrorString msg"

text \<open>\<open>errors.Is(err, target)\<close>: \<open>err\<close> or an error it wraps equals \<open>target\<close>.\<close>

fun errors_Is :: "error \<Rightarrow> error \<Rightarrow> bool" where
  "errors_Is (Wrapped msg e) target = (Wrapped msg e = target \<or> errors_Is e target)"
| "errors_Is e target = (e = target)"

text \<open>
  A \<open>context.Context\<close> is observed through \<open>ctx.Err()\<close> only: \<open>None\<close> while it is
  live, the cancellation error once it is done.
\<close>

type_synonym ctx = "error option"

datatype panic = Panic string

text \<open>
  A value of interface type \<open>Runner\<close> over a store \<open>'s\<close> that its methods read and
  write. \<open>Run\<close> returns \<open>None\<close> when the call does not return under the given state of
  the context (it blocks). \<open>Closer\<close> is the method \<open>Close(ctx) error\<close> when the dynamic
  type has it (interface \<open>async.Closer\<close>), \<open>io_Closer\<close> the method \<open>Close() error\<close>
  (interface \<open>io.Closer\<close>).
\<close>

record 's Runner =
  Run :: "ctx \<Rightarrow> 's \<Rightarrow> (error option \<times> 's) option"
  Closer :: "(ctx \<Rightarrow> 's \<Rightarrow> error option \<times> 's) option"
  io_Closer :: "('s \<Rightarrow> error option \<times> 's) option"

text \<open>\<open>type Func func(ctx) error\<close>: a runner with the method \<open>Run\<close> only.\<close>

definition Func_of :: "(ctx \<Rightarrow> 's \<Rightarrow> (error option \<times> 's) option) \<Rightarrow> 's Runner" where
  "Func_of f = \<lparr>Run = f, Closer = None, io_Closer = None\<rparr>"

text \<open>\<open>RunClose\<close>: the type switch tries \<open>Closer\<close> first, then \<open>io.Closer\<close>.\<close>

definition RunClose :: "ctx \<Rightarrow> 's Runner \<Rightarrow> 's \<Rightarrow> error option \<times> 's" where
  "RunClose c r s =
     (case Closer r of
        Some cl \<Rightarrow> cl c s
      | None \<Rightarrow>
          (case io_Closer r of
             Some cl \<Rightarrow> cl s
           | None \<Rightarrow> (None, s)))"

section \<open>Shutdown (pkg/async/shutdown.go)\<close>

text \<open>
  \<open>Shutdown\<close> holds the channel \<open>done\<close>; of a \<open>chan struct{}\<close> that nothing is sent on
  only whether it has been closed matters. \<open>trapping\<close> records whether
  \<open>signal.Notify\<close> is in force for the three signals.
\<close>

record Shutdown =
  done_closed :: bool
  trapping :: bool

definition NewShutdown :: Shutdown where
  "NewShutdown = \<lparr>done_closed = False, trapping = False\<rparr>"

text \<open>\<open>close\<close> of a closed channel panics (the Go language specification).\<close>

definition Shutdown_Close :: "ctx \<Rightarrow> Shutdown \<Rightarrow> panic + (error option \<times> Shutdown)" where
  "Shutdown_Close c s =
     (if done_closed s then Inl (Panic ''close of closed channel'')
      else Inr (None, s\<lparr>done_closed := True\<rparr>))"

datatype Signal = SIGHUP | SIGINT | SIGTERM | SIGUSR1

text \<open>The signals passed to \<open>signal.Notify\<close>.\<close>

definition notified :: "Signal \<Rightarrow> bool" where
  "notified sg = (sg = SIGINT \<or> sg = SIGTERM \<or> sg = SIGHUP)"


text \<open>
  What happens while \<open>Run\<close> is blocked in its \<open>select\<close>, in the order of time: a signal
  is delivered to the process, the context is cancelled with an error, or \<open>Close\<close> is
  called.
\<close>

datatype sh_event = SigArrives Signal | CtxCancelled error | CloseCalled


text \<open>Nothing but signals that are not passed to \<open>Notify\<close>: they leave \<open>Run\<close> blocked.\<close>

definition quiet :: "sh_event list \<Rightarrow> bool" where
  "quiet es = list_all (\<lambda>ev. case ev of SigArrives sg \<Rightarrow> \<not> notified sg | _ \<Rightarrow> False) es"


section \<open>MutexWithContext (pkg/async/async.go)\<close>

text \<open>
  Modelled from the spec: the weighted semaphore of \<open>golang.org/x/sync/semaphore\<close>,
  which \<open>MutexWithContext\<close> wraps and whose source is not part of the repository. The
  spec: a counting semaphore of capacity 1; \<open>Lock\<close> blocks until the permit is
  acquired or the context is done and returns the context's error on failure;
  releasing without a matching acquisition is fatal. \<open>cur\<close> counts the permits held.
  \<open>Acquire\<close> returns \<open>None\<close> when it blocks: the context is live and the permits are
  taken. A context that is already done fails the call.
\<close>

record Weighted =
  size_w :: int
  cur :: int

definition NewWeighted :: "int \<Rightarrow> Weighted" where
  "NewWeighted n = \<lparr>size_w = n, cur = 0\<rparr>"

definition Weighted_Acquire :: "ctx \<Rightarrow> int \<Rightarrow> Weighted \<Rightarrow> (error option \<times> Weighted) option" where
  "Weighted_Acquire c n w =
     (case c of
        Some e \<Rightarrow> Some (Some e, w)
      | None \<Rightarrow> if size_w w - cur w \<ge> n then Some (None, w\<lparr>cur := cur w + n\<rparr>) else None)"

definition Weighted_Release :: "int \<Rightarrow> Weighted \<Rightarrow> panic + Weighted" where
  "Weighted_Release n w =
     (if cur w - n < 0 then Inl (Panic ''semaphore: released more than held'')
      else Inr (w\<lparr>cur := cur w - n\<rparr>))"

record MutexWithContext =
  sem :: Weighted

definition NewMutexWithContext :: MutexWithContext where
  "NewMutexWithContext = \<lparr>sem = NewWeighted 1\<rparr>"

definition MutexWithContext_Lock ::
  "ctx \<Rightarrow> MutexWithContext \<Rightarrow> (error option \<times> MutexWithContext) option" where
  "MutexWithContext_Lock c m =
     (case Weighted_Acquire c 1 (sem m) of
        None \<Rightarrow> None
      | Some (err, w) \<Rightarrow> Some (err, m\<lparr>sem := w\<rparr>))"

definition MutexWithContext_Unlock :: "MutexWithContext \<Rightarrow> panic + MutexWithContext" where
  "MutexWithContext_Unlock m =
     (case Weighted_Release 1 (sem m) of
        Inl p \<Rightarrow> Inl p
      | Inr w \<Rightarrow> Inr (m\<lparr>sem := w\<rparr>))"

text \<open>
  A history of calls on one mutex, in the order in which they complete. The two
  counters are ghost state: the \<open>Lock\<close> calls that returned \<open>nil\<close> and the \<open>Unlock\<close>
  calls that returned. The history stops at the first panic; \<open>None\<close> means that a
  \<open>Lock\<close> of the history cannot complete at its place.
\<close>

datatype mutex_op = LockOp ctx | UnlockOp

fun Mutex_history ::
  "mutex_op list \<Rightarrow> MutexWithContext \<times> nat \<times> nat \<Rightarrow> (panic + MutexWithContext \<times> nat \<times> nat) option" where
  "Mutex_history [] st = Some (Inr st)"
| "Mutex_history (LockOp c # ops) (m, l, u) =
     (case MutexWithContext_Lock c m of
        None \<Rightarrow> None
      | Some (None, m') \<Rightarrow> Mutex_history ops (m', Suc l, u)
      | Some (Some e, m') \<Rightarrow> Mutex_history ops (m', l, u))"
| "Mutex_history (UnlockOp # ops) (m, l, u) =
     (case MutexWithContext_Unlock m of
        Inl p \<Rightarrow> Some (Inl p)
      | Inr m' \<Rightarrow> Mutex_history ops (m', l, Suc u))"

section \<open>Tracing and logging\<close>

text \<open>
  What the code hands to the collaborators, in order: spans of package \<open>trace\<close>,
  \<open>log.Error\<close> with its message and error, and, as ghost events, the return of a group
  member's \<open>Run\<close>, a call of a \<open>Close\<close> method with its result, and the steps of the
  cron scheduler.
\<close>

datatype event =
    SpanStart string
  | SpanEnd string
  | LogError string error
  | RunReturned nat "error option"
  | CloseInvoked nat "error option"
  | JobCreated
  | JobAdded
  | CronStarted
  | TickBegan
  | TickEnded "error option"
  | CronStopped
  | Drained

fun logged :: "event list \<Rightarrow> (string \<times> error) list" where
  "logged [] = []"
| "logged (LogError msg e # tr) = (msg, e) # logged tr"
| "logged (ev # tr) = logged tr"

section \<open>TaskGroup (pkg/async/async.go)\<close>

record TaskGroup =
  Name :: string
  WaitGroup :: int

definition NewTaskGroup :: "string \<Rightarrow> TaskGroup" where
  "NewTaskGroup name = \<lparr>Name = name, WaitGroup = 0\<rparr>"

text \<open>
  \<open>TaskGroup.Run\<close> returns nothing: the caller gets back the group with its barrier
  incremented (\<open>TaskGroup_Run_call\<close>). The goroutine it starts opens a span, runs
  the runner, logs an error that is not \<open>nil\<close> and not \<open>context.Canceled\<close>, ends the
  span and decrements the barrier (\<open>TaskGroup_Run_goroutine\<close>; \<open>None\<close> when the
  runner does not return). The context given to a runner is the state it has when the
  runner returns.
\<close>

definition TaskGroup_Run_call :: "TaskGroup \<Rightarrow> TaskGroup" where
  "TaskGroup_Run_call t = t\<lparr>WaitGroup := WaitGroup t + 1\<rparr>"

definition TaskGroup_Run_goroutine ::
  "TaskGroup \<Rightarrow> ctx \<Rightarrow> 's Runner \<Rightarrow> event list \<times> 's \<Rightarrow> (TaskGroup \<times> event list \<times> 's) option" where
  "TaskGroup_Run_goroutine t c r st =
     (case st of (tr, s) \<Rightarrow>
        let tr1 = tr @ [SpanStart (Name t)] in
        (case Run r c s of
           None \<Rightarrow> None
         | Some (err, s') \<Rightarrow>
             let tr2 = (if err \<noteq> None \<and> \<not> errors_Is (the err) Canceled
                        then tr1 @ [LogError (Name t) (the err)] else tr1)
             in Some (t\<lparr>WaitGroup := WaitGroup t - 1\<rparr>, tr2 @ [SpanEnd (Name t)], s')))"

definition TaskGroup_Run ::
  "TaskGroup \<Rightarrow> ctx \<Rightarrow> 's Runner \<Rightarrow> event list \<times> 's \<Rightarrow> (TaskGroup \<times> event list \<times> 's) option" where
  "TaskGroup_Run t c r st = TaskGroup_Run_goroutine (TaskGroup_Run_call t) c r st"

text \<open>\<open>Wait\<close> returns once the barrier is zero and blocks (\<open>None\<close>) before.\<close>

definition TaskGroup_Wait :: "TaskGroup \<Rightarrow> unit option" where
  "TaskGroup_Wait t = (if WaitGroup t = 0 then Some () else None)"

text \<open>
  The closure \<open>run\<close> of \<open>Loop\<close>: one call of the runner in its own span; \<open>True\<close> when
  the loop has to stop.
\<close>

definition Loop_run ::
  "string \<Rightarrow> 's Runner \<Rightarrow> ctx \<Rightarrow> event list \<times> 's \<Rightarrow> (bool \<times> event list \<times> 's) option" where
  "Loop_run name r c st =
     (case st of (tr, s) \<Rightarrow>
        let tr1 = tr @ [SpanStart name] in
        (case Run r c s of
           None \<Rightarrow> None
         | Some (err, s') \<Rightarrow>
             if err \<noteq> None \<and> \<not> errors_Is (the err) Canceled
             then Some (True, tr1 @ [LogError name (the err), SpanEnd name], s')
             else Some (False, tr1 @ [SpanEnd name], s')))"

text \<open>
  The \<open>for\<close> loop of the goroutine. \<open>cx n\<close> is \<open>ctx.Err()\<close> once \<open>n\<close> calls of the runner
  have returned, so the call numbered \<open>n\<close> runs from \<open>cx n\<close> to \<open>cx (Suc n)\<close>. The loop
  yields the number of calls made; it is \<open>None\<close> when it never ends.
\<close>

partial_function (option) Loop_for ::
  "(nat \<Rightarrow> ctx) \<Rightarrow> string \<Rightarrow> 's Runner \<Rightarrow> nat \<Rightarrow> event list \<times> 's \<Rightarrow> (nat \<times> event list \<times> 's) option" where
  "Loop_for cx name r n st =
     (if cx n \<noteq> None then Some (n, st)
      else (case Loop_run name r (cx (Suc n)) st of
              None \<Rightarrow> None
            | Some (ok, st') \<Rightarrow> if ok then Some (Suc n, st') else Loop_for cx name r (Suc n) st'))"

declare Loop_for.simps [code]

definition TaskGroup_Loop ::
  "TaskGroup \<Rightarrow> (nat \<Rightarrow> ctx) \<Rightarrow> 's Runner \<Rightarrow> event list \<times> 's \<Rightarrow> (TaskGroup \<times> nat \<times> event list \<times> 's) option" where
  "TaskGroup_Loop t cx r st =
     (let t1 = t\<lparr>WaitGroup := WaitGroup t + 1\<rparr> in
      case Loop_for cx (Name t1) r 0 st of
        None \<Rightarrow> None
      | Some (n, st') \<Rightarrow> Some (t1\<lparr>WaitGroup := WaitGroup t1 - 1\<rparr>, n, st'))"

text \<open>
  The runner of \<open>TestTaskGroup_LoopWithError\<close>; the store is the counter.
\<close>

definition counting_runner :: "int Runner" where
  "counting_runner =
     Func_of (\<lambda>c counter. if counter < 3 then Some (None, counter + 1)
                           else Some (Some (errors_New ''some error''), counter))"

section \<open>RunGroup (pkg/async/async.go)\<close>



text \<open>The ghost event of \<open>RunClose\<close>: present when a \<open>Close\<close> method is called.\<close>

definition has_close :: "'s Runner \<Rightarrow> bool" where
  "has_close r = (Closer r \<noteq> None \<or> io_Closer r \<noteq> None)"

definition close_events :: "nat \<Rightarrow> 's Runner \<Rightarrow> error option \<Rightarrow> event list" where
  "close_events idx r cerr = (if has_close r then [CloseInvoked idx cerr] else [])"




fun closed_members :: "event list \<Rightarrow> nat list" where
  "closed_members [] = []"
| "closed_members (CloseInvoked idx cerr # tr) = idx # closed_members tr"
| "closed_members (ev # tr) = closed_members tr"






section \<open>The cron service activity (pkg/serviceactivities/cronjob/cronjob.go)\<close>

text \<open>
  \<open>NewJob\<close> is the factory; \<open>sa_done_closed\<close> says whether the channel \<open>done\<close> has been
  closed. The scheduler of \<open>robfig/cron\<close> enters through \<open>AddJob\<close>, its verdict on the
  schedule expression, and through the events below.
\<close>

record 's ServiceActivity =
  frequency :: string
  NewJob :: "'s \<Rightarrow> 's Runner \<times> 's"
  sa_done_closed :: bool

text \<open>
  What happens while \<open>Run\<close> waits, in the order of time: the scheduler starts a tick
  (a goroutine that calls \<open>job.Run\<close>), a tick in flight gets to its end, the context is
  cancelled, \<open>Close\<close> closes \<open>done\<close>.
\<close>

datatype cron_event = TickBegin | TickEnd | CtxCancel error | CloseSA

record 's cron_run =
  in_flight :: nat
  errCh :: "error option"
  c_trace :: "event list"
  c_store :: 's

text \<open>
  The \<open>select\<close> of \<open>Run\<close> while no case is ready: the first event that makes one ready
  decides. A tick that ends with an error sends it on \<open>errCh\<close>, where the \<open>select\<close>
  receives it. Yields the value of \<open>err\<close>, the state of the context, the events left
  and the run; \<open>None\<close> when \<open>Run\<close> waits for ever.
\<close>

fun cron_select ::
  "'s Runner \<Rightarrow> cron_event list \<Rightarrow> 's cron_run \<Rightarrow> (error option \<times> ctx \<times> cron_event list \<times> 's cron_run) option" where
  "cron_select job [] st = None"
| "cron_select job (TickBegin # es) st =
     cron_select job es (st\<lparr>in_flight := Suc (in_flight st), c_trace := c_trace st @ [TickBegan]\<rparr>)"
| "cron_select job (TickEnd # es) st =
     (if in_flight st = 0 then cron_select job es st
      else (case Run job None (c_store st) of
              None \<Rightarrow> cron_select job es st
            | Some (res, s') \<Rightarrow>
                let st' = st\<lparr>in_flight := in_flight st - 1,
                             c_trace := c_trace st @ [TickEnded res],
                             c_store := s'\<rparr>
                in (case res of
                      None \<Rightarrow> cron_select job es st'
                    | Some e \<Rightarrow> Some (Some e, None, es, st'))))"
| "cron_select job (CtxCancel e # es) st = Some (Some e, Some e, es, st)"
| "cron_select job (CloseSA # es) st = Some (None, None, es, st)"

text \<open>
  \<open><-ctx2.Done()\<close> after \<open>cron.Stop()\<close>: no tick starts any more, and \<open>Run\<close> goes on
  when no tick is in flight. A tick that ends with an error sends it on \<open>errCh\<close>, of
  capacity 1, which nobody receives from any more: the second such tick blocks in its
  send, and so does \<open>Run\<close>. \<open>None\<close> when \<open>Run\<close> waits for ever.
\<close>

fun cron_drain ::
  "'s Runner \<Rightarrow> ctx \<Rightarrow> cron_event list \<Rightarrow> 's cron_run \<Rightarrow> (ctx \<times> 's cron_run) option" where
  "cron_drain job c [] st = (if in_flight st = 0 then Some (c, st) else None)"
| "cron_drain job c (ev # es) st =
     (if in_flight st = 0 then Some (c, st)
      else (case ev of
              TickBegin \<Rightarrow> cron_drain job c es st
            | TickEnd \<Rightarrow>
                (case Run job c (c_store st) of
                   None \<Rightarrow> cron_drain job c es st
                 | Some (res, s') \<Rightarrow>
                     let st' = st\<lparr>in_flight := in_flight st - 1,
                                  c_trace := c_trace st @ [TickEnded res],
                                  c_store := s'\<rparr>
                     in (case res of
                           None \<Rightarrow> cron_drain job c es st'
                         | Some e \<Rightarrow>
                             (case errCh st of
                                None \<Rightarrow> cron_drain job c es (st'\<lparr>errCh := Some e\<rparr>)
                              | Some e' \<Rightarrow> None)))
            | CtxCancel e \<Rightarrow> cron_drain job (Some e) es st
            | CloseSA \<Rightarrow> cron_drain job c es st))"

text \<open>
  What a call of \<open>Run\<close> gives back, with two ghost fields: \<open>waited\<close> is the value of
  \<open>err\<close> after the \<open>select\<close>, \<open>closed\<close> the value of \<open>err2\<close>.
\<close>

record 's cron_outcome =
  result :: "error option"
  waited :: "error option"
  closed :: "error option"
  o_trace :: "event list"
  o_store :: 's

text \<open>The code of \<open>Run\<close> after its \<open>select\<close>.\<close>

definition cron_finish ::
  "'s Runner \<Rightarrow> error option \<times> ctx \<times> cron_event list \<times> 's cron_run \<Rightarrow> 's cron_outcome list" where
  "cron_finish job fired =
     (case fired of (err, c, es, st) \<Rightarrow>
        (case cron_drain job c es (st\<lparr>c_trace := c_trace st @ [CronStopped]\<rparr>) of
           None \<Rightarrow> []
         | Some (c', st2) \<Rightarrow>
             (case RunClose c' job (c_store st2) of (err2, s3) \<Rightarrow>
                [\<lparr>result = (if err = None then err2 else err),
                  waited = err,
                  closed = err2,
                  o_trace = c_trace st2 @ [Drained] @ close_events 0 job err2,
                  o_store = s3\<rparr>])))"

text \<open>
  \<open>Run\<close>. When cases of the \<open>select\<close> are ready at entry (\<open>ctx\<close> done, \<open>done\<close> closed),
  it takes any of them, so \<open>Run\<close> yields the list of its possible outcomes; the empty
  list means that it never returns.
\<close>

definition ServiceActivity_Run ::
  "(string \<Rightarrow> error option) \<Rightarrow> 's ServiceActivity \<Rightarrow> ctx \<Rightarrow> cron_event list \<Rightarrow> event list \<times> 's
     \<Rightarrow> 's cron_outcome list" where
  "ServiceActivity_Run AddJob sa c es0 st =
     (case st of (tr, s) \<Rightarrow>
        (case NewJob sa s of (job, s1) \<Rightarrow>
           let tr1 = tr @ [JobCreated] in
           (case AddJob (frequency sa) of
              Some e \<Rightarrow>
                [\<lparr>result = Some e, waited = None, closed = None, o_trace = tr1, o_store = s1\<rparr>]
            | None \<Rightarrow>
                let st0 = \<lparr>in_flight = 0, errCh = None,
                           c_trace = tr1 @ [JobAdded, CronStarted], c_store = s1\<rparr>;
                    ready = (case c of Some e \<Rightarrow> [(Some e, c, es0, st0)] | None \<Rightarrow> [])
                            @ (if sa_done_closed sa then [(None, c, es0, st0)] else []);
                    fired = (if ready \<noteq> [] then ready
                             else (case cron_select job es0 st0 of
                                     None \<Rightarrow> []
                                   | Some f \<Rightarrow> [f]))
                in concat (map (cron_finish job) fired))))"

text \<open>
  \<open>New\<close>, and \<open>Close\<close>, which closes \<open>done\<close> and so panics at its second call.
\<close>

definition New :: "('s \<Rightarrow> 's Runner \<times> 's) \<Rightarrow> string \<Rightarrow> 's ServiceActivity" where
  "New newJob frq = \<lparr>frequency = frq, NewJob = newJob, sa_done_closed = False\<rparr>"

definition ServiceActivity_Close ::
  "ctx \<Rightarrow> 's ServiceActivity \<Rightarrow> panic + (error option \<times> 's ServiceActivity)" where
  "ServiceActivity_Close c sa =
     (if sa_done_closed sa then Inl (Panic ''close of closed channel'')
      else Inr (None, sa\<lparr>sa_done_closed := True\<rparr>))"

text \<open>
  The jobs of package \<open>cronjobtest\<close> (the sleep of \<open>RunnerWithCloseError.Run\<close> is the
  time between the begin and the end of a tick) and the factories the tests pass to
  \<open>New\<close>.
\<close>

definition RunnerWithCloseError :: "unit Runner" where
  "RunnerWithCloseError =
     \<lparr>Run = (\<lambda>c s. Some (None, s)),
      Closer = Some (\<lambda>c s. (Some (errors_New ''error while closing runner''), s)),
      io_Closer = None\<rparr>"


definition newRunnerWithCloseError :: "unit \<Rightarrow> unit Runner \<times> unit" where
  "newRunnerWithCloseError s = (RunnerWithCloseError, s)"


text \<open>
  A verdict of the scheduler's parser, which is not part of the repository: it takes
  the expressions of the tests and rejects the empty one.
\<close>

definition test_AddJob :: "string \<Rightarrow> error option" where
  "test_AddJob spec =
     (if spec = [] then Some (errors_New ''empty spec string'') else None)"

section \<open>Properties\<close>

text \<open>
  C10. \<open>RunClose(ctx, r)\<close> is \<open>r.Close(ctx)\<close> when \<open>r\<close> has the method of \<open>async.Closer\<close>,
  whatever else it implements; otherwise \<open>r.Close()\<close> when it has the method of
  \<open>io.Closer\<close>; otherwise \<open>nil\<close>, with the store untouched.
\<close>

theorem RunClose_dispatch:
  "(\<forall>cl. Closer r = Some cl \<longrightarrow> RunClose c r s = cl c s) \<and>
   (\<forall>cl. Closer r = None \<and> io_Closer r = Some cl \<longrightarrow> RunClose c r s = cl s) \<and>
   (Closer r = None \<and> io_Closer r = None \<longrightarrow> RunClose c r s = (None, s))"
  by (simp add: RunClose_def)

theorem RunClose_dispatch_witness:
  "RunClose None \<lparr>Run = (\<lambda>c s. Some (None, s)),
                  Closer = Some (\<lambda>c s. (Some (ErrorString ''ctx close''), Suc s)),
                  io_Closer = Some (\<lambda>s. (None, s))\<rparr> (0::nat)
     = (Some (ErrorString ''ctx close''), 1) \<and>
   RunClose None \<lparr>Run = (\<lambda>c s. Some (None, s)), Closer = None,
                  io_Closer = Some (\<lambda>s. (Some (ErrorString ''io close''), s + 2))\<rparr> (0::nat)
     = (Some (ErrorString ''io close''), 2) \<and>
   RunClose (Some Canceled) (Func_of (\<lambda>c s. Some (None, s))) (0::nat) = (None, 0)"
proof -
  let ?r1 = "\<lparr>Run = (\<lambda>c s. Some (None, s)),
              Closer = Some (\<lambda>c s. (Some (ErrorString ''ctx close''), Suc s)),
              io_Closer = Some (\<lambda>s. (None, s))\<rparr> :: nat Runner"
  let ?r2 = "\<lparr>Run = (\<lambda>c s. Some (None, s)), Closer = None,
              io_Closer = Some (\<lambda>s. (Some (ErrorString ''io close''), s + 2))\<rparr> :: nat Runner"
  let ?r3 = "Func_of (\<lambda>c s. Some (None, s)) :: nat Runner"
  have a: "RunClose None ?r1 0 = (Some (ErrorString ''ctx close''), 1)"
    using RunClose_dispatch [of ?r1 None 0] by simp
  have b: "RunClose None ?r2 0 = (Some (ErrorString ''io close''), 2)"
    using RunClose_dispatch [of ?r2 None 0] by simp
  have c: "RunClose (Some Canceled) ?r3 0 = (None, 0)"
    using RunClose_dispatch [of ?r3 "Some Canceled" 0] by (simp add: Func_of_def)
  from a b c show ?thesis by simp
qed

text \<open>
  C8. \<open>Close\<close> is not idempotent: the first call on a new \<open>Shutdown\<close> returns \<open>nil\<close> and
  closes \<open>done\<close>; any call on a \<open>Shutdown\<close> whose \<open>done\<close> is closed, so every second call,
  panics with the close of a closed channel.
\<close>

theorem Shutdown_Close_twice_panics:
  "Shutdown_Close c1 NewShutdown = Inr (None, NewShutdown\<lparr>done_closed := True\<rparr>) \<and>
   (\<forall>s s' r c2. Shutdown_Close c1 s = Inr (r, s') \<longrightarrow>
      Shutdown_Close c2 s' = Inl (Panic ''close of closed channel''))"
  by (auto simp add: Shutdown_Close_def NewShutdown_def split: if_splits)

theorem Shutdown_Close_twice_panics_witness:
  "Shutdown_Close None NewShutdown = Inr (None, NewShutdown\<lparr>done_closed := True\<rparr>) \<and>
   Shutdown_Close None (NewShutdown\<lparr>done_closed := True\<rparr>)
     = Inl (Panic ''close of closed channel'')"
  using Shutdown_Close_twice_panics [of None] by blast





lemma Mutex_history_invariant:
  "Mutex_history ops (m, l, u) = Some (Inr (m', l', u')) \<Longrightarrow>
   size_w (sem m) = 1 \<Longrightarrow> cur (sem m) = int l - int u \<Longrightarrow> u \<le> l \<Longrightarrow>
   size_w (sem m') = 1 \<and> cur (sem m') = int l' - int u' \<and> u' \<le> l'"
proof (induction ops arbitrary: m l u)
  case Nil
  then show ?case by simp
next
  case (Cons op ops)
  show ?case
  proof (cases op)
    case (LockOp c)
    show ?thesis
    proof (cases "MutexWithContext_Lock c m")
      case None
      with Cons.prems LockOp show ?thesis by simp
    next
      case (Some p)
      obtain err m1 where p: "p = (err, m1)" by (cases p)
      show ?thesis
      proof (cases err)
        case None
        from Some p None have m1: "size_w (sem m1) = 1" "cur (sem m1) = int (Suc l) - int u"
          using Cons.prems(2,3)
          by (auto simp add: MutexWithContext_Lock_def Weighted_Acquire_def
              split: option.splits if_splits)
        from Cons.prems(1) LockOp Some p None
        have "Mutex_history ops (m1, Suc l, u) = Some (Inr (m', l', u'))" by simp
        from Cons.IH [OF this m1] Cons.prems(4) show ?thesis by simp
      next
        case (Some e)
        from \<open>MutexWithContext_Lock c m = Some p\<close> p Some
        have m1: "size_w (sem m1) = 1" "cur (sem m1) = int l - int u"
          using Cons.prems(2,3)
          by (auto simp add: MutexWithContext_Lock_def Weighted_Acquire_def
              split: option.splits if_splits)
        from Cons.prems(1) LockOp \<open>MutexWithContext_Lock c m = Some p\<close> p Some
        have "Mutex_history ops (m1, l, u) = Some (Inr (m', l', u'))" by simp
        from Cons.IH [OF this m1 Cons.prems(4)] show ?thesis .
      qed
    qed
  next
    case UnlockOp
    show ?thesis
    proof (cases "MutexWithContext_Unlock m")
      case (Inl p)
      with Cons.prems UnlockOp show ?thesis by simp
    next
      case (Inr m1)
      then have m1: "size_w (sem m1) = 1" "cur (sem m1) = int l - int (Suc u)" "Suc u \<le> l"
        using Cons.prems(2,3,4)
        by (auto simp add: MutexWithContext_Unlock_def Weighted_Release_def
            split: sum.splits if_splits)
      from Cons.prems(1) UnlockOp Inr
      have "Mutex_history ops (m1, l, Suc u) = Some (Inr (m', l', u'))" by simp
      from Cons.IH [OF this m1] show ?thesis .
    qed
  qed
qed

text \<open>
  C7. After any history of calls on a new mutex that did not panic, the \<open>Unlock\<close>
  calls never outnumber the \<open>Lock\<close> calls that succeeded, and \<open>Unlock\<close> panics exactly
  when every successful \<open>Lock\<close> has been matched by an \<open>Unlock\<close> already; it then
  yields no mutex state at all. In particular the second \<open>Unlock\<close> after one \<open>Lock\<close> and
  one \<open>Unlock\<close> panics.
\<close>

theorem Unlock_without_Lock_panics:
  "(Mutex_history ops (NewMutexWithContext, 0, 0) = Some (Inr (m, l, u)) \<longrightarrow>
      u \<le> l \<and>
      (MutexWithContext_Unlock m = Inl (Panic ''semaphore: released more than held'')) = (u = l) \<and>
      (u < l \<longrightarrow> (\<exists>m'. MutexWithContext_Unlock m = Inr m'))) \<and>
   Mutex_history [LockOp None, UnlockOp, UnlockOp] (NewMutexWithContext, 0, 0)
     = Some (Inl (Panic ''semaphore: released more than held''))"
proof -
  have "u \<le> l \<and>
      (MutexWithContext_Unlock m = Inl (Panic ''semaphore: released more than held'')) = (u = l) \<and>
      (u < l \<longrightarrow> (\<exists>m'. MutexWithContext_Unlock m = Inr m'))"
    if h: "Mutex_history ops (NewMutexWithContext, 0, 0) = Some (Inr (m, l, u))"
  proof -
    have "size_w (sem m) = 1 \<and> cur (sem m) = int l - int u \<and> u \<le> l"
      by (rule Mutex_history_invariant [OF h])
        (simp_all add: NewMutexWithContext_def NewWeighted_def)
    then show ?thesis
      by (auto simp add: MutexWithContext_Unlock_def Weighted_Release_def)
  qed
  moreover have "Mutex_history [LockOp None, UnlockOp, UnlockOp] (NewMutexWithContext, 0, 0)
     = Some (Inl (Panic ''semaphore: released more than held''))"
    by (simp add: NewMutexWithContext_def NewWeighted_def MutexWithContext_Lock_def
        Weighted_Acquire_def MutexWithContext_Unlock_def Weighted_Release_def)
  ultimately show ?thesis by blast
qed

theorem Unlock_without_Lock_panics_witness:
  "Mutex_history [LockOp None, UnlockOp] (NewMutexWithContext, 0, 0)
     = Some (Inr (NewMutexWithContext, 1, 1)) \<and>
   MutexWithContext_Unlock NewMutexWithContext
     = Inl (Panic ''semaphore: released more than held'')"
proof -
  have h: "Mutex_history [LockOp None, UnlockOp] (NewMutexWithContext, 0, 0)
     = Some (Inr (NewMutexWithContext, 1, 1))"
    by (simp add: NewMutexWithContext_def NewWeighted_def MutexWithContext_Lock_def
        Weighted_Acquire_def MutexWithContext_Unlock_def Weighted_Release_def)
  with Unlock_without_Lock_panics [of "[LockOp None, UnlockOp]" NewMutexWithContext 1 1]
  show ?thesis by simp
qed

lemma logged_append: "logged (xs @ ys) = logged xs @ logged ys"
  by (induction xs rule: logged.induct) simp_all

text \<open>
  C5. \<open>TaskGroup.Run\<close> hands the caller nothing but the group with its barrier
  incremented. Once the runner has returned, the barrier is back, the runner's error
  appears nowhere but in the log, and the log has gained exactly this error when it is
  not \<open>nil\<close> and not \<open>context.Canceled\<close>, and nothing at all when it is
  \<open>context.Canceled\<close> (or wraps it) or \<open>nil\<close>.
\<close>

theorem TaskGroup_Run_swallows_error:
  "Run r c s = Some (err, s') \<Longrightarrow>
   TaskGroup_Run_call t = t\<lparr>WaitGroup := WaitGroup t + 1\<rparr> \<and>
   (\<exists>tr'. TaskGroup_Run t c r (tr, s) = Some (t, tr', s') \<and>
      logged tr' =
        logged tr @ (case err of
                       None \<Rightarrow> []
                     | Some e \<Rightarrow> if errors_Is e Canceled then [] else [(Name t, e)]))"
  by (cases err)
    (simp_all add: TaskGroup_Run_def TaskGroup_Run_call_def TaskGroup_Run_goroutine_def
      logged_append)

theorem TaskGroup_Run_swallows_error_witness:
  "(\<exists>tr'. TaskGroup_Run (NewTaskGroup ''test'') None
            (Func_of (\<lambda>c s. Some (Some (ErrorString ''some error''), s + 1))) ([], 0::int)
          = Some (NewTaskGroup ''test'', tr', 1)
        \<and> logged tr' = [(''test'', ErrorString ''some error'')]) \<and>
   (\<exists>tr'. TaskGroup_Run (NewTaskGroup ''test'') (Some Canceled)
            (Func_of (\<lambda>c s. Some (Some (Wrapped ''stopped'' Canceled), s + 1))) ([], 0::int)
          = Some (NewTaskGroup ''test'', tr', 1)
        \<and> logged tr' = [])"
proof -
  let ?r1 = "Func_of (\<lambda>c s. Some (Some (ErrorString ''some error''), s + 1)) :: int Runner"
  let ?r2 = "Func_of (\<lambda>c s. Some (Some (Wrapped ''stopped'' Canceled), s + 1)) :: int Runner"
  have a: "Run ?r1 None 0 = Some (Some (ErrorString ''some error''), 1)"
    by (simp add: Func_of_def)
  have b: "Run ?r2 (Some Canceled) 0 = Some (Some (Wrapped ''stopped'' Canceled), 1)"
    by (simp add: Func_of_def)
  from TaskGroup_Run_swallows_error [OF a, of "NewTaskGroup ''test''" "[]"]
    TaskGroup_Run_swallows_error [OF b, of "NewTaskGroup ''test''" "[]"]
  show ?thesis by (simp add: NewTaskGroup_def)
qed

lemma Loop_for_cancelled:
  "cx n \<noteq> None \<Longrightarrow> Loop_for cx name r n st = Some (n, st)"
  by (subst Loop_for.simps) simp

lemma Loop_for_error:
  "cx n = None \<Longrightarrow> Run r (cx (Suc n)) s = Some (Some e, s') \<Longrightarrow> \<not> errors_Is e Canceled \<Longrightarrow>
   Loop_for cx name r n (tr, s)
     = Some (Suc n, tr @ [SpanStart name, LogError name e, SpanEnd name], s')"
  by (subst Loop_for.simps) (simp add: Loop_run_def)

lemma Loop_for_again:
  "cx n = None \<Longrightarrow> Run r (cx (Suc n)) s = Some (err, s') \<Longrightarrow>
   err = None \<or> errors_Is (the err) Canceled \<Longrightarrow>
   Loop_for cx name r n (tr, s)
     = Loop_for cx name r (Suc n) (tr @ [SpanStart name, SpanEnd name], s')"
  by (subst Loop_for.simps) (auto simp add: Loop_run_def)

lemma Loop_for_blocked:
  "cx n = None \<Longrightarrow> Run r (cx (Suc n)) s = None \<Longrightarrow> Loop_for cx name r n (tr, s) = None"
  by (subst Loop_for.simps) (simp add: Loop_run_def)

lemma Loop_run_logged:
  "Loop_run name r c (tr, s) = Some (ok, tr', s') \<Longrightarrow>
   (ok \<longrightarrow> (\<exists>e. logged tr' = logged tr @ [(name, e)] \<and> \<not> errors_Is e Canceled)) \<and>
   (\<not> ok \<longrightarrow> logged tr' = logged tr)"
  by (auto simp add: Loop_run_def Let_def logged_append split: option.splits if_splits)

lemma Loop_for_stops:
  assumes ret: "Loop_for cx name r n st = Some res"
  shows "n \<le> fst res \<and> (\<forall>k. n \<le> k \<and> k < fst res \<longrightarrow> cx k = None) \<and>
   ((cx (fst res) \<noteq> None \<and> logged (fst (snd res)) = logged (fst st)) \<or>
    (n < fst res \<and>
     (\<exists>e. logged (fst (snd res)) = logged (fst st) @ [(name, e)] \<and> \<not> errors_Is e Canceled)))"
proof (rule Loop_for.raw_induct [where P = "\<lambda>cx name r n st res.
   n \<le> fst res \<and> (\<forall>k. n \<le> k \<and> k < fst res \<longrightarrow> cx k = None) \<and>
   ((cx (fst res) \<noteq> None \<and> logged (fst (snd res)) = logged (fst st)) \<or>
    (n < fst res \<and>
     (\<exists>e. logged (fst (snd res)) = logged (fst st) @ [(name, e)] \<and> \<not> errors_Is e Canceled)))",
     OF _ ret])
  fix f :: "(nat \<Rightarrow> ctx) \<Rightarrow> string \<Rightarrow> 'a Runner \<Rightarrow> nat \<Rightarrow> event list \<times> 'a \<Rightarrow> (nat \<times> event list \<times> 'a) option"
  fix cx name r n st res
  assume IH: "\<And>cx name r n st res. f cx name r n st = Some res \<Longrightarrow>
    n \<le> fst res \<and> (\<forall>k. n \<le> k \<and> k < fst res \<longrightarrow> cx k = None) \<and>
    ((cx (fst res) \<noteq> None \<and> logged (fst (snd res)) = logged (fst st)) \<or>
     (n < fst res \<and>
      (\<exists>e. logged (fst (snd res)) = logged (fst st) @ [(name, e)] \<and> \<not> errors_Is e Canceled)))"
  assume body: "(if cx n \<noteq> None then Some (n, st)
      else (case Loop_run name r (cx (Suc n)) st of
              None \<Rightarrow> None
            | Some (ok, st') \<Rightarrow> if ok then Some (Suc n, st') else f cx name r (Suc n) st')) = Some res"
  show "n \<le> fst res \<and> (\<forall>k. n \<le> k \<and> k < fst res \<longrightarrow> cx k = None) \<and>
    ((cx (fst res) \<noteq> None \<and> logged (fst (snd res)) = logged (fst st)) \<or>
     (n < fst res \<and>
      (\<exists>e. logged (fst (snd res)) = logged (fst st) @ [(name, e)] \<and> \<not> errors_Is e Canceled)))"
  proof (cases "cx n \<noteq> None")
    case True
    with body show ?thesis by auto
  next
    case False
    then have live: "cx n = None" by simp
    obtain tr s where st: "st = (tr, s)" by (cases st)
    from body live obtain ok tr1 s1 where
      run: "Loop_run name r (cx (Suc n)) (tr, s) = Some (ok, tr1, s1)"
      by (auto simp add: st split: option.splits)
    note lg = Loop_run_logged [OF run]
    have only: "k = n" if "n \<le> k" "k < Suc n" for k using that by simp
    show ?thesis
    proof (cases ok)
      case True
      with body live run st have "res = (Suc n, tr1, s1)" by simp
      with lg True live st show ?thesis by (auto dest: only)
    next
      case False
      with body live run st have "f cx name r (Suc n) (tr1, s1) = Some res" by simp
      note ih = IH [OF this]
      have lo: "n \<le> fst res" "n < fst res" using ih by simp_all
      have quiet: "cx k = None" if "n \<le> k" "k < fst res" for k
      proof (cases "k = n")
        case True
        with live show ?thesis by simp
      next
        case False
        with that have "Suc n \<le> k" by simp
        with ih that show ?thesis by blast
      qed
      from ih lg False have fin:
        "(cx (fst res) \<noteq> None \<and> logged (fst (snd res)) = logged tr) \<or>
         (\<exists>e. logged (fst (snd res)) = logged tr @ [(name, e)] \<and> \<not> errors_Is e Canceled)"
        by auto
      from lo quiet fin st show ?thesis by auto
    qed
  qed
qed

lemma Loop_for_returns:
  assumes total: "\<And>c s. Run r c s \<noteq> None"
  shows "cx K \<noteq> None \<Longrightarrow> n \<le> K \<Longrightarrow> \<exists>res. Loop_for cx name r n st = Some res"
proof (induction "K - n" arbitrary: n st)
  case 0
  then have "cx n \<noteq> None" by simp
  then show ?case by (simp add: Loop_for_cancelled)
next
  case (Suc d)
  show ?case
  proof (cases "cx n \<noteq> None")
    case True
    then show ?thesis by (simp add: Loop_for_cancelled)
  next
    case False
    then have live: "cx n = None" by simp
    obtain tr s where st: "st = (tr, s)" by (cases st)
    from total [of "cx (Suc n)" s] obtain err s' where
      run: "Run r (cx (Suc n)) s = Some (err, s')" by auto
    show ?thesis
    proof (cases "err = None \<or> errors_Is (the err) Canceled")
      case True
      from Suc.hyps(2) Suc.prems have "d = K - Suc n" "Suc n \<le> K" by simp_all
      from Suc.hyps(1) [OF this(1) Suc.prems(1) this(2)]
      show ?thesis by (simp add: st Loop_for_again [OF live run True])
    next
      case False
      then obtain e where "err = Some e" "\<not> errors_Is e Canceled" by auto
      with run live show ?thesis by (simp add: st Loop_for_error)
    qed
  qed
qed

lemma Loop_for_counting_runner:
  "TaskGroup_Loop (NewTaskGroup ''test'') (\<lambda>n. None) counting_runner ([], 0)
     = Some (NewTaskGroup ''test'', 4,
             [SpanStart ''test'', SpanEnd ''test'', SpanStart ''test'', SpanEnd ''test'',
              SpanStart ''test'', SpanEnd ''test'',
              SpanStart ''test'', LogError ''test'' (ErrorString ''some error''), SpanEnd ''test''],
             3)"
proof -
  let ?cx = "\<lambda>n::nat. None :: ctx"
  have r0: "Run counting_runner None 0 = Some (None, 1)"
    and r1: "Run counting_runner None 1 = Some (None, 2)"
    and r2: "Run counting_runner None 2 = Some (None, 3)"
    and r3: "Run counting_runner None 3 = Some (Some (ErrorString ''some error''), 3)"
    by (simp_all add: counting_runner_def Func_of_def errors_New_def)
  have "Loop_for ?cx ''test'' counting_runner 0 ([], 0)
      = Loop_for ?cx ''test'' counting_runner 1 ([SpanStart ''test'', SpanEnd ''test''], 1)"
    using Loop_for_again [of ?cx 0 counting_runner 0 None 1 "''test''" "[]"] r0 by simp
  also have "\<dots> = Loop_for ?cx ''test'' counting_runner 2
      ([SpanStart ''test'', SpanEnd ''test'', SpanStart ''test'', SpanEnd ''test''], 2)"
    using Loop_for_again [of ?cx 1 counting_runner 1 None 2 "''test''"
        "[SpanStart ''test'', SpanEnd ''test'']"] r1 by (simp add: numeral_2_eq_2)
  also have "\<dots> = Loop_for ?cx ''test'' counting_runner 3
      ([SpanStart ''test'', SpanEnd ''test'', SpanStart ''test'', SpanEnd ''test'',
        SpanStart ''test'', SpanEnd ''test''], 3)"
    using Loop_for_again [of ?cx 2 counting_runner 2 None 3 "''test''"
        "[SpanStart ''test'', SpanEnd ''test'', SpanStart ''test'', SpanEnd ''test'']"] r2
    by (simp add: numeral_3_eq_3 numeral_2_eq_2)
  also have "\<dots> = Some (4,
      [SpanStart ''test'', SpanEnd ''test'', SpanStart ''test'', SpanEnd ''test'',
       SpanStart ''test'', SpanEnd ''test'',
       SpanStart ''test'', LogError ''test'' (ErrorString ''some error''), SpanEnd ''test''], 3)"
    using Loop_for_error [of ?cx 3 counting_runner 3 "ErrorString ''some error''" 3 "''test''"
        "[SpanStart ''test'', SpanEnd ''test'', SpanStart ''test'', SpanEnd ''test'',
          SpanStart ''test'', SpanEnd ''test'']"] r3
    by simp
  finally show ?thesis
    by (simp add: TaskGroup_Loop_def NewTaskGroup_def)
qed

text \<open>
  C6. The loop calls the runner again and again: it stops without a call and without
  a log entry as soon as the context is done; it stops right after a call that
  returns an error other than \<open>context.Canceled\<close>, which it logs; after any other
  call it goes on. So when \<open>Loop\<close> has ended after \<open>m\<close> calls, the context was live
  before each of them, and either the context is done and nothing was logged, or the
  last call's error, not a cancellation, is the one log entry; the barrier is back. It
  does end when the runner always returns and the context is done at some time. For
  the runner of the test under a live context: four calls, counter 3, the error
  logged, and \<open>Wait\<close> returns.
\<close>

theorem TaskGroup_Loop_until_error_or_cancel:
  "(cx n \<noteq> None \<longrightarrow> Loop_for cx name r n st = Some (n, st)) \<and>
   (cx n = None \<and> Run r (cx (Suc n)) s = Some (Some e, s1) \<and> \<not> errors_Is e Canceled \<longrightarrow>
      Loop_for cx name r n (tr, s)
        = Some (Suc n, tr @ [SpanStart name, LogError name e, SpanEnd name], s1)) \<and>
   (cx n = None \<and> Run r (cx (Suc n)) s = Some (err, s1) \<and>
    (err = None \<or> errors_Is (the err) Canceled) \<longrightarrow>
      Loop_for cx name r n (tr, s)
        = Loop_for cx name r (Suc n) (tr @ [SpanStart name, SpanEnd name], s1)) \<and>
   (TaskGroup_Loop t cx r (tr, s) = Some (t', m, tr', s') \<longrightarrow>
      t' = t \<and> (\<forall>k<m. cx k = None) \<and>
      ((cx m \<noteq> None \<and> logged tr' = logged tr) \<or>
       (0 < m \<and> (\<exists>e. logged tr' = logged tr @ [(Name t, e)] \<and> \<not> errors_Is e Canceled)))) \<and>
   ((\<forall>c s. Run r c s \<noteq> None) \<and> cx K \<noteq> None \<longrightarrow>
      (\<exists>res. TaskGroup_Loop t cx r (tr, s) = Some res)) \<and>
   TaskGroup_Loop (NewTaskGroup ''test'') (\<lambda>n. None) counting_runner ([], 0)
     = Some (NewTaskGroup ''test'', 4,
             [SpanStart ''test'', SpanEnd ''test'', SpanStart ''test'', SpanEnd ''test'',
              SpanStart ''test'', SpanEnd ''test'',
              SpanStart ''test'', LogError ''test'' (ErrorString ''some error''), SpanEnd ''test''],
             3) \<and>
   TaskGroup_Wait (NewTaskGroup ''test'') = Some ()"
proof -
  have d: "t' = t \<and> (\<forall>k<m. cx k = None) \<and>
      ((cx m \<noteq> None \<and> logged tr' = logged tr) \<or>
       (0 < m \<and> (\<exists>e. logged tr' = logged tr @ [(Name t, e)] \<and> \<not> errors_Is e Canceled)))"
    if h: "TaskGroup_Loop t cx r (tr, s) = Some (t', m, tr', s')"
  proof -
    from h have l: "Loop_for cx (Name t) r 0 (tr, s) = Some (m, tr', s')" and t: "t' = t"
      by (auto simp add: TaskGroup_Loop_def Let_def split: option.splits)
    from Loop_for_stops [OF l] t show ?thesis by simp
  qed
  have e: "\<exists>res. TaskGroup_Loop t cx r (tr, s) = Some res"
    if total: "\<forall>c s. Run r c s \<noteq> None" and cancelled: "cx K \<noteq> None"
  proof -
    have "\<exists>res. Loop_for cx (Name t) r 0 (tr, s) = Some res"
    proof (rule Loop_for_returns)
      show "Run r c s \<noteq> None" for c s using total by simp
      show "cx K \<noteq> None" by (rule cancelled)
      show "0 \<le> K" by simp
    qed
    then show ?thesis by (auto simp add: TaskGroup_Loop_def Let_def)
  qed
  have w: "TaskGroup_Wait (NewTaskGroup ''test'') = Some ()"
    by (simp add: TaskGroup_Wait_def NewTaskGroup_def)
  have a: "cx n \<noteq> None \<longrightarrow> Loop_for cx name r n st = Some (n, st)"
    by (simp add: Loop_for_cancelled)
  have b: "cx n = None \<and> Run r (cx (Suc n)) s = Some (Some e, s1) \<and> \<not> errors_Is e Canceled \<longrightarrow>
      Loop_for cx name r n (tr, s)
        = Some (Suc n, tr @ [SpanStart name, LogError name e, SpanEnd name], s1)"
    using Loop_for_error [of cx n r s e s1 name tr] by blast
  have c: "cx n = None \<and> Run r (cx (Suc n)) s = Some (err, s1) \<and>
    (err = None \<or> errors_Is (the err) Canceled) \<longrightarrow>
      Loop_for cx name r n (tr, s)
        = Loop_for cx name r (Suc n) (tr @ [SpanStart name, SpanEnd name], s1)"
    using Loop_for_again [of cx n r s err s1 name tr] by blast
  from d have d': "TaskGroup_Loop t cx r (tr, s) = Some (t', m, tr', s') \<longrightarrow>
      t' = t \<and> (\<forall>k<m. cx k = None) \<and>
      ((cx m \<noteq> None \<and> logged tr' = logged tr) \<or>
       (0 < m \<and> (\<exists>e. logged tr' = logged tr @ [(Name t, e)] \<and> \<not> errors_Is e Canceled)))"
    by (rule impI)
  from e have e': "(\<forall>c s. Run r c s \<noteq> None) \<and> cx K \<noteq> None \<longrightarrow>
      (\<exists>res. TaskGroup_Loop t cx r (tr, s) = Some res)"
    by blast
  show ?thesis
    by (intro conjI a b c d' e' Loop_for_counting_runner w)
qed

theorem TaskGroup_Loop_until_error_or_cancel_witness:
  "Loop_for (\<lambda>n. Some Canceled) ''test'' counting_runner 0 ([], 0) = Some (0, [], 0) \<and>
   Loop_for (\<lambda>n. None) ''test'' counting_runner 3 ([], 3)
     = Some (4, [SpanStart ''test'', LogError ''test'' (ErrorString ''some error''),
                 SpanEnd ''test''], 3) \<and>
   Loop_for (\<lambda>n. None) ''test'' counting_runner 0 ([], 0)
     = Loop_for (\<lambda>n. None) ''test'' counting_runner 1
         ([SpanStart ''test'', SpanEnd ''test''], 1) \<and>
   (\<exists>e. logged [SpanStart ''test'', SpanEnd ''test'', SpanStart ''test'', SpanEnd ''test'',
                 SpanStart ''test'', SpanEnd ''test'',
                 SpanStart ''test'', LogError ''test'' (ErrorString ''some error''),
                 SpanEnd ''test'']
          = [(''test'', e)] \<and> \<not> errors_Is e Canceled) \<and>
   (\<exists>res. TaskGroup_Loop (NewTaskGroup ''test'')
            (\<lambda>n. if n = 2 then Some Canceled else None) counting_runner ([], 0) = Some res)"
proof -
  have r0: "Run counting_runner None 0 = Some (None, 1)"
    and r3: "Run counting_runner None 3 = Some (Some (ErrorString ''some error''), 3)"
    and total: "\<forall>c s. Run counting_runner c s \<noteq> None"
    by (simp_all add: counting_runner_def Func_of_def errors_New_def)
  have a: "Loop_for (\<lambda>n. Some Canceled) ''test'' counting_runner 0 ([], 0) = Some (0, [], 0)"
    using TaskGroup_Loop_until_error_or_cancel
      [where cx = "\<lambda>n. Some Canceled" and n = 0 and name = "''test''" and r = counting_runner
        and st = "([], 0)"]
    by simp
  have b: "Loop_for (\<lambda>n. None) ''test'' counting_runner 3 ([], 3)
     = Some (4, [SpanStart ''test'', LogError ''test'' (ErrorString ''some error''),
                 SpanEnd ''test''], 3)"
    using TaskGroup_Loop_until_error_or_cancel
      [where cx = "\<lambda>n. None" and n = 3 and name = "''test''" and r = counting_runner
        and s = 3 and e = "ErrorString ''some error''" and ?s1.0 = 3 and tr = "[]"] r3
    by simp
  have c: "Loop_for (\<lambda>n. None) ''test'' counting_runner 0 ([], 0)
     = Loop_for (\<lambda>n. None) ''test'' counting_runner 1
         ([SpanStart ''test'', SpanEnd ''test''], 1)"
    using TaskGroup_Loop_until_error_or_cancel
      [where cx = "\<lambda>n. None" and n = 0 and name = "''test''" and r = counting_runner
        and s = 0 and err = None and ?s1.0 = 1 and tr = "[]"] r0
    by simp
  have d: "\<exists>e. logged [SpanStart ''test'', SpanEnd ''test'', SpanStart ''test'', SpanEnd ''test'',
                 SpanStart ''test'', SpanEnd ''test'',
                 SpanStart ''test'', LogError ''test'' (ErrorString ''some error''),
                 SpanEnd ''test'']
          = [(''test'', e)] \<and> \<not> errors_Is e Canceled"
    using TaskGroup_Loop_until_error_or_cancel
      [where cx = "\<lambda>n. None" and t = "NewTaskGroup ''test''" and r = counting_runner
        and s = 0 and tr = "[]" and t' = "NewTaskGroup ''test''" and m = 4 and s' = 3
        and tr' = "[SpanStart ''test'', SpanEnd ''test'', SpanStart ''test'', SpanEnd ''test'',
                 SpanStart ''test'', SpanEnd ''test'',
                 SpanStart ''test'', LogError ''test'' (ErrorString ''some error''),
                 SpanEnd ''test'']"]
    by (simp add: NewTaskGroup_def)
  have e: "\<exists>res. TaskGroup_Loop (NewTaskGroup ''test'')
            (\<lambda>n. if n = 2 then Some Canceled else None) counting_runner ([], 0) = Some res"
    using TaskGroup_Loop_until_error_or_cancel
      [where cx = "\<lambda>n. if n = 2 then Some Canceled else None" and K = 2
        and t = "NewTaskGroup ''test''" and r = counting_runner and s = 0 and tr = "[]"] total
    by simp
  from a b c d e show ?thesis by (intro conjI)
qed
















text \<open>
  C2 fails on the code at the early return of \<open>Run\<close>: when \<open>AddJob\<close> rejects the
  schedule expression, \<open>Run\<close> returns that error right after the factory has made the
  job, and the job, whose \<open>Close\<close> method \<open>RunClose\<close> would call, is not closed. On the other paths the
  job is closed after the scheduler has stopped and no tick is in flight
  (\<open>ServiceActivity_Run_added\<close>).
\<close>

theorem ServiceActivity_Run_AddJob_error_skips_Close:
  "ServiceActivity_Run test_AddJob (New newRunnerWithCloseError []) None [CloseSA] ([], ())
     = [\<lparr>result = Some (ErrorString ''empty spec string''), waited = None, closed = None,
         o_trace = [JobCreated], o_store = ()\<rparr>] \<and>
   closed_members [JobCreated] = [] \<and>
   RunClose None (fst (newRunnerWithCloseError ())) ()
     = (Some (ErrorString ''error while closing runner''), ())"
  by (simp add: ServiceActivity_Run_def New_def newRunnerWithCloseError_def
      RunnerWithCloseError_def test_AddJob_def RunClose_def errors_New_def)

end
